theory Spec2Isabelle
  imports Main
begin

section \<open>Python values and errors\<close>

text \<open>
  The values that cross the boundaries of the pipeline are JSON-shaped Python values: the
  entries of the \<open>overrides\<close> dict, the result of \<open>json.loads\<close>, the fields of a filter
  and the descriptions of thought steps. A dict is an association list read with
  \<open>map_of\<close> (insertion order kept, first binding of a key is the one looked up). A float
  \<open>PFloat m e\<close> is the binary number \<open>m * 2 ^ e\<close>; floats are only passed along, never
  computed with. Strings are \<open>string\<close>; a character stands for a code point below 256.
\<close>

datatype pyval =
    PNone
  | PBool bool
  | PInt int
  | PFloat int int
  | PStr string
  | PList "pyval list"
  | PDict "(string \<times> pyval) list"

text \<open>
  Exceptions of the source are values: every raise is \<open>Inl\<close> of one of these.
  \<open>UpstreamError\<close> is whatever an external capability raises.
\<close>

datatype error =
    IndexError
  | KeyError string
  | TypeError
  | AttributeError
  | JSONDecodeError
  | UpstreamError string

text \<open>\<open>obj[key]\<close> with a string key: only a dict can be subscripted that way.\<close>

definition subscript :: "pyval \<Rightarrow> string \<Rightarrow> error + pyval" where
  "subscript obj k =
     (case obj of
        PDict d \<Rightarrow> (case map_of d k of None \<Rightarrow> Inl (KeyError k) | Some v \<Rightarrow> Inr v)
      | _ \<Rightarrow> Inl TypeError)"

text \<open>\<open>d.get(key)\<close> and \<open>d.get(key, default)\<close> on a dict.\<close>

definition dict_get :: "(string \<times> pyval) list \<Rightarrow> string \<Rightarrow> pyval" where
  "dict_get d k = (case map_of d k of None \<Rightarrow> PNone | Some v \<Rightarrow> v)"

definition dict_get_default :: "(string \<times> pyval) list \<Rightarrow> string \<Rightarrow> pyval \<Rightarrow> pyval" where
  "dict_get_default d k dflt = (case map_of d k of None \<Rightarrow> dflt | Some v \<Rightarrow> v)"

text \<open>Truth value of an object, as \<open>if x\<close> and \<open>x or y\<close> test it.\<close>

fun truthy :: "pyval \<Rightarrow> bool" where
  "truthy PNone = False"
| "truthy (PBool b) = b"
| "truthy (PInt i) = (i \<noteq> 0)"
| "truthy (PFloat m e) = (m \<noteq> 0)"
| "truthy (PStr s) = (s \<noteq> [])"
| "truthy (PList xs) = (xs \<noteq> [])"
| "truthy (PDict d) = (d \<noteq> [])"

text \<open>
  \<open>str.strip()\<close>: the characters \<open>str.isspace\<close> accepts are removed from both ends. Below
  code point 256 these are tab, line feed, vertical tab, form feed, carriage return, the
  separators 28 to 31, space, next line (133) and no-break space (160).
\<close>

definition isspace :: "char \<Rightarrow> bool" where
  "isspace c = (of_char c \<in> set [9, 10, 11, 12, 13, 28, 29, 30, 31, 32, 133, 160 :: nat])"

definition strip :: "string \<Rightarrow> string" where
  "strip s = rev (dropWhile isspace (rev (dropWhile isspace s)))"

section \<open>query_rewriter: the intent extractor\<close>

text \<open>
  The parts of a \<open>ChatCompletion\<close> that \<open>extract_search_arguments\<close> reads. A field that
  the library types as optional is an \<open>option\<close>.
\<close>

record function_call =
  name :: string
  arguments :: string

record tool_call =
  tool_type :: string
  tool_function :: function_call

record response_message =
  content :: "string option"
  tool_calls :: "tool_call list option"

record choice =
  message :: response_message

record chat_completion =
  choices :: "choice list"

text \<open>A filter is the dict with the keys \<open>column\<close>, \<open>comparison_operator\<close>, \<open>value\<close>.\<close>

record search_filter =
  column :: string
  comparison_operator :: pyval
  filter_value :: pyval

text \<open>
  The dict literal appended to \<open>filters\<close>: \<open>f["comparison_operator"]\<close> is evaluated
  before \<open>f["value"]\<close>, and either may raise.
\<close>

definition make_filter :: "string \<Rightarrow> pyval \<Rightarrow> error + search_filter" where
  "make_filter col f =
     (case subscript f ''comparison_operator'' of
        Inl e \<Rightarrow> Inl e
      | Inr opr \<Rightarrow>
          (case subscript f ''value'' of
             Inl e \<Rightarrow> Inl e
           | Inr v \<Rightarrow> Inr \<lparr>column = col, comparison_operator = opr, filter_value = v\<rparr>))"

text \<open>
  \<open>if key in arg: filters.append({...arg[key]...})\<close> for one of the two filter keys.
\<close>

definition append_filter ::
  "(string \<times> pyval) list \<Rightarrow> string \<Rightarrow> string \<Rightarrow> search_filter list \<Rightarrow> error + search_filter list"
where
  "append_filter arg key col filters =
     (case map_of arg key of
        None \<Rightarrow> Inr filters
      | Some f \<Rightarrow>
          (case make_filter col f of
             Inl e \<Rightarrow> Inl e
           | Inr flt \<Rightarrow> Inr (filters @ [flt])))"

text \<open>
  The body of the loop over \<open>tool_calls\<close>, on the loop's state \<open>(search_query, filters)\<close>.
  \<open>loads\<close> is \<open>json.loads\<close>, a library function taken as a parameter. A payload that
  parses to something other than a dict fails at \<open>arg.get\<close> with AttributeError.
\<close>

definition tool_step ::
  "(string \<Rightarrow> error + pyval) \<Rightarrow> tool_call \<Rightarrow> pyval \<times> search_filter list
     \<Rightarrow> error + pyval \<times> search_filter list"
where
  "tool_step loads tool st =
     (if tool_type tool \<noteq> ''function'' then Inr st
      else if name (tool_function tool) = ''search_database'' then
        (case loads (arguments (tool_function tool)) of
           Inl e \<Rightarrow> Inl e
         | Inr (PDict arg) \<Rightarrow>
             (case append_filter arg ''price_filter'' ''price'' (snd st) of
                Inl e \<Rightarrow> Inl e
              | Inr filters1 \<Rightarrow>
                  (case append_filter arg ''brand_filter'' ''brand'' filters1 of
                     Inl e \<Rightarrow> Inl e
                   | Inr filters2 \<Rightarrow> Inr (dict_get arg ''search_query'', filters2)))
         | Inr _ \<Rightarrow> Inl AttributeError)
      else Inr st)"

fun scan_tools ::
  "(string \<Rightarrow> error + pyval) \<Rightarrow> tool_call list \<Rightarrow> pyval \<times> search_filter list
     \<Rightarrow> error + pyval \<times> search_filter list"
where
  "scan_tools loads [] st = Inr st"
| "scan_tools loads (tool # tools) st =
     (case tool_step loads tool st of
        Inl e \<Rightarrow> Inl e
      | Inr st' \<Rightarrow> scan_tools loads tools st')"

text \<open>
  \<open>extract_search_arguments\<close>. \<open>choices[0]\<close> raises IndexError on an empty list. The
  first branch is taken when \<open>tool_calls\<close> is a non-empty list; the \<open>elif\<close> only when it
  is \<open>None\<close> or empty and \<open>content\<close> is a non-empty string.
\<close>

definition extract_search_arguments ::
  "(string \<Rightarrow> error + pyval) \<Rightarrow> chat_completion \<Rightarrow> error + pyval \<times> search_filter list"
where
  "extract_search_arguments loads chat_completion =
     (case choices chat_completion of
        [] \<Rightarrow> Inl IndexError
      | c # _ \<Rightarrow>
          (let response_message = message c in
           case tool_calls response_message of
             Some (tool # tools) \<Rightarrow> scan_tools loads (tool # tools) (PNone, [])
           | _ \<Rightarrow>
               (case content response_message of
                  Some (ch # query_text) \<Rightarrow> Inr (PStr (strip (ch # query_text)), [])
                | _ \<Rightarrow> Inr (PNone, []))))"

text \<open>A tool call that the loop acts on: kind \<open>function\<close>, named \<open>search_database\<close>.\<close>

definition is_search_call :: "tool_call \<Rightarrow> bool" where
  "is_search_call tool =
     (tool_type tool = ''function'' \<and> name (tool_function tool) = ''search_database'')"

text \<open>
  A malformed argument payload: it does not parse, or it parses to a dict in which a
  present \<open>price_filter\<close> or \<open>brand_filter\<close> object lacks \<open>comparison_operator\<close> or
  \<open>value\<close>.
\<close>

definition filter_incomplete :: "(string \<times> pyval) list \<Rightarrow> string \<Rightarrow> bool" where
  "filter_incomplete arg key =
     (case map_of arg key of
        Some (PDict f) \<Rightarrow> map_of f ''comparison_operator'' = None \<or> map_of f ''value'' = None
      | _ \<Rightarrow> False)"

definition malformed_payload :: "(string \<Rightarrow> error + pyval) \<Rightarrow> string \<Rightarrow> bool" where
  "malformed_payload loads payload =
     (case loads payload of
        Inl e \<Rightarrow> True
      | Inr (PDict arg) \<Rightarrow>
          filter_incomplete arg ''price_filter'' \<or> filter_incomplete arg ''brand_filter''
      | Inr _ \<Rightarrow> False)"


section \<open>rag_simple: the answer synthesizer\<close>

text \<open>
  A request message is the dict with the keys \<open>role\<close> and \<open>content\<close>, both text. A float
  of an embedding vector is a pair \<open>(m, e)\<close> for \<open>m * 2 ^ e\<close>.
\<close>

record chat_message =
  role :: string
  msg_content :: string

type_synonym pyfloat = "int \<times> int"

text \<open>
  \<open>ThoughtStep(title, description, props)\<close>. The class is declared in \<open>api_models\<close>,
  which is not among the sources; \<open>props\<close> is \<open>None\<close> where the constructor call passes
  no \<open>props\<close> and the class's own default applies.
\<close>

record thought_step =
  title :: string
  description :: pyval
  props :: "(string \<times> pyval) list option"

text \<open>
  The response: the dumped completion, whose choices each may carry the \<open>context\<close> entry
  \<open>{"data_points": {"text": ...}, "thoughts": ...}\<close>.
\<close>

record rag_context =
  data_points_text :: "string list"
  thoughts :: "thought_step list"

record resp_choice =
  dumped :: choice
  choice_context :: "rag_context option"

record chat_resp =
  resp_choices :: "resp_choice list"

definition model_dump :: "chat_completion \<Rightarrow> chat_resp" where
  "model_dump completion =
     \<lparr>resp_choices = map (\<lambda>c. \<lparr>dumped = c, choice_context = None\<rparr>) (choices completion)\<rparr>"

text \<open>The keyword arguments of \<open>build_messages\<close> and of \<open>chat.completions.create\<close>.\<close>

record build_args =
  model :: string
  system_prompt :: pyval
  new_user_message :: string
  past_messages :: "chat_message list"
  max_tokens :: int
  fallback_to_default :: bool

record create_args =
  create_model :: string
  create_messages :: "chat_message list"
  temperature :: pyval
  create_max_tokens :: int
  create_n :: int
  create_stream :: bool

text \<open>
  The fields of a \<open>SimpleRAGChat\<close>. The searcher and the chat client are the one method
  \<open>run\<close> calls on each; both may raise.
\<close>

record 'item simple_rag_chat =
  searcher_search :: "pyval \<Rightarrow> pyfloat list \<Rightarrow> pyval \<Rightarrow> error + 'item list"
  openai_chat_client_create :: "create_args \<Rightarrow> error + chat_completion"
  chat_model :: string
  chat_deployment :: "string option"
  embed_deployment :: "string option"
  embed_model :: string
  embed_dimensions :: int
  chat_token_limit :: int
  answer_prompt_template :: string

text \<open>
  What \<open>run\<close> uses from modules that are not part of the sources, taken as parameters:
  \<open>compute_text_embedding\<close> (of the text, the model, the deployment and the dimensions;
  the client handle is part of the function), \<open>build_messages\<close>, the methods
  \<open>to_str_for_rag\<close> and \<open>to_dict\<close> of a retrieved item, the text \<open>format_id\<close> that
  the f-string renders for \<open>item.id\<close>, and \<open>str\<close> of a message.
\<close>

record 'item library =
  compute_text_embedding :: "string \<Rightarrow> string \<Rightarrow> string option \<Rightarrow> int \<Rightarrow> error + pyfloat list"
  build_messages :: "build_args \<Rightarrow> error + chat_message list"
  format_id :: "'item \<Rightarrow> string"
  to_str_for_rag :: "'item \<Rightarrow> string"
  to_dict :: "'item \<Rightarrow> pyval"
  str_message :: "chat_message \<Rightarrow> string"

text \<open>
  Calls that leave the process are recorded, in order, with their arguments. A traced
  computation is the events so far and either the exception raised or the value.
\<close>

datatype event =
    EmbedCall string
  | SearchCall pyval "pyfloat list" pyval
  | BuildCall build_args
  | CreateCall create_args

type_synonym 'a traced = "event list \<times> (error + 'a)"

definition returned :: "'a \<Rightarrow> 'a traced" where
  "returned x = ([], Inr x)"

definition raise :: "error \<Rightarrow> 'a traced" where
  "raise e = ([], Inl e)"

definition call :: "event \<Rightarrow> error + 'a \<Rightarrow> 'a traced" where
  "call ev r = ([ev], r)"

definition unrecorded :: "error + 'a \<Rightarrow> 'a traced" where
  "unrecorded r = ([], r)"

definition and_then :: "'a traced \<Rightarrow> ('a \<Rightarrow> 'b traced) \<Rightarrow> 'b traced" where
  "and_then m k =
     (case m of
        (tr, Inl e) \<Rightarrow> (tr, Inl e)
      | (tr, Inr x) \<Rightarrow> (case k x of (tr', r) \<Rightarrow> (tr @ tr', r)))"

definition nl :: string where
  "nl = [CHR 0x0A]"

text \<open>\<open>sep.join(xs)\<close>.\<close>

fun join :: "string \<Rightarrow> string list \<Rightarrow> string" where
  "join sep [] = []"
| "join sep [x] = x"
| "join sep (x # y # ys) = x @ sep @ join sep (y # ys)"

text \<open>The list comprehension \<open>sources_content\<close> and the joined text \<open>content\<close>.\<close>

definition sources_content :: "'item library \<Rightarrow> 'item list \<Rightarrow> string list" where
  "sources_content lib results =
     map (\<lambda>item. ''['' @ format_id lib item @ '']:'' @ to_str_for_rag lib item @ nl @ nl) results"

definition sources_text :: "'item library \<Rightarrow> 'item list \<Rightarrow> string" where
  "sources_text lib results = join nl (sources_content lib results)"

text \<open>The value of \<open>self.chat_deployment if self.chat_deployment else ...\<close>'s test.\<close>

definition deployment_set :: "string option \<Rightarrow> bool" where
  "deployment_set d = (case d of None \<Rightarrow> False | Some s \<Rightarrow> s \<noteq> [])"

definition text_search_of :: "(string \<times> pyval) list \<Rightarrow> bool" where
  "text_search_of overrides =
     (dict_get overrides ''retrieval_mode'' \<in> set [PStr ''text'', PStr ''hybrid'', PNone])"

definition vector_search_of :: "(string \<times> pyval) list \<Rightarrow> bool" where
  "vector_search_of overrides =
     (dict_get overrides ''retrieval_mode'' \<in> set [PStr ''vectors'', PStr ''hybrid'', PNone])"

definition top_of :: "(string \<times> pyval) list \<Rightarrow> pyval" where
  "top_of overrides = dict_get_default overrides ''top'' (PInt 3)"

text \<open>The arguments handed to \<open>build_messages\<close>; the response budget is 1024 tokens.\<close>

definition build_request ::
  "'item library \<Rightarrow> 'item simple_rag_chat \<Rightarrow> (string \<times> pyval) list \<Rightarrow> string
     \<Rightarrow> chat_message list \<Rightarrow> 'item list \<Rightarrow> build_args"
where
  "build_request lib self overrides original_user_query past results =
     \<lparr>model = chat_model self,
      system_prompt =
        (if truthy (dict_get overrides ''prompt_template'')
         then dict_get overrides ''prompt_template''
         else PStr (answer_prompt_template self)),
      new_user_message =
        original_user_query @ nl @ nl @ ''Sources:'' @ nl @ sources_text lib results,
      past_messages = past,
      max_tokens = chat_token_limit self - 1024,
      fallback_to_default = True\<rparr>"

text \<open>The arguments of the completion request; the default temperature is the float 0.3.\<close>

definition create_request ::
  "'item simple_rag_chat \<Rightarrow> (string \<times> pyval) list \<Rightarrow> chat_message list \<Rightarrow> create_args"
where
  "create_request self overrides prompt_messages =
     \<lparr>create_model =
        (if deployment_set (chat_deployment self) then the (chat_deployment self)
         else chat_model self),
      create_messages = prompt_messages,
      temperature = dict_get_default overrides ''temperature'' (PFloat 5404319552844595 (- 54)),
      create_max_tokens = 1024,
      create_n = 1,
      create_stream = False\<rparr>"

text \<open>The \<open>context\<close> attached to the first choice.\<close>

definition context_of ::
  "'item library \<Rightarrow> 'item simple_rag_chat \<Rightarrow> (string \<times> pyval) list \<Rightarrow> pyval
     \<Rightarrow> 'item list \<Rightarrow> chat_message list \<Rightarrow> rag_context"
where
  "context_of lib self overrides query_text results prompt_messages =
     \<lparr>data_points_text = sources_content lib results,
      thoughts =
        [\<lparr>title = ''Search query for database'',
          description = query_text,
          props = Some [(''top'', top_of overrides),
                        (''vector_search'', PBool (vector_search_of overrides)),
                        (''text_search'', PBool (text_search_of overrides))]\<rparr>,
         \<lparr>title = ''Search results'',
          description = PList (map (to_dict lib) results),
          props = None\<rparr>,
         \<lparr>title = ''Prompt to generate answer'',
          description = PList (map (\<lambda>m. PStr (str_message lib m)) prompt_messages),
          props =
            Some (if deployment_set (chat_deployment self)
                  then [(''model'', PStr (chat_model self)),
                        (''deployment'', PStr (the (chat_deployment self)))]
                  else [(''model'', PStr (chat_model self))])\<rparr>]\<rparr>"

text \<open>
  \<open>chat_resp["choices"][0]["context"] = ctx\<close>: IndexError when the dumped completion has
  no choice.
\<close>

definition attach_context :: "chat_resp \<Rightarrow> rag_context \<Rightarrow> error + chat_resp" where
  "attach_context chat_resp ctx =
     (case resp_choices chat_resp of
        [] \<Rightarrow> Inl IndexError
      | first # rest \<Rightarrow>
          Inr (chat_resp\<lparr>resp_choices := first\<lparr>choice_context := Some ctx\<rparr> # rest\<rparr>))"

text \<open>
  \<open>SimpleRAGChat.run\<close>. \<open>messages[-1]\<close> raises IndexError on an empty list, after the
  three reads of \<open>overrides\<close>, which cannot raise. The search is called on every path
  that reaches it.
\<close>

definition run ::
  "'item library \<Rightarrow> 'item simple_rag_chat \<Rightarrow> chat_message list \<Rightarrow> (string \<times> pyval) list
     \<Rightarrow> chat_resp traced"
where
  "run lib self messages overrides =
     (let text_search = text_search_of overrides;
          vector_search = vector_search_of overrides;
          top = top_of overrides
      in
      if messages = [] then raise IndexError
      else
        let original_user_query = msg_content (last messages);
            past = butlast messages
        in
        and_then
          (if vector_search then
             call (EmbedCall original_user_query)
               (compute_text_embedding lib original_user_query (embed_model self)
                  (embed_deployment self) (embed_dimensions self))
           else returned [])
          (\<lambda>vector.
             let query_text = (if text_search then PStr original_user_query else PNone) in
             and_then
               (call (SearchCall query_text vector top)
                  (searcher_search self query_text vector top))
               (\<lambda>results.
                  let request = build_request lib self overrides original_user_query past results in
                  and_then (call (BuildCall request) (build_messages lib request))
                    (\<lambda>prompt_messages.
                       let completion_request = create_request self overrides prompt_messages in
                       and_then
                         (call (CreateCall completion_request)
                            (openai_chat_client_create self completion_request))
                         (\<lambda>chat_completion_response.
                            unrecorded
                              (attach_context (model_dump chat_completion_response)
                                 (context_of lib self overrides query_text results
                                    prompt_messages)))))))"

text \<open>The embedding texts and the search arguments of a trace, in call order.\<close>

fun embed_calls :: "event list \<Rightarrow> string list" where
  "embed_calls [] = []"
| "embed_calls (EmbedCall q # evs) = q # embed_calls evs"
| "embed_calls (ev # evs) = embed_calls evs"

fun search_calls :: "event list \<Rightarrow> (pyval \<times> pyfloat list \<times> pyval) list" where
  "search_calls [] = []"
| "search_calls (SearchCall q v k # evs) = (q, v, k) # search_calls evs"
| "search_calls (ev # evs) = search_calls evs"

fun build_calls :: "event list \<Rightarrow> build_args list" where
  "build_calls [] = []"
| "build_calls (BuildCall a # evs) = a # build_calls evs"
| "build_calls (ev # evs) = build_calls evs"

text \<open>
  The embedding step and the query text of \<open>run\<close>, named for the statements below:
  the value of \<open>vector\<close> (or the exception of the embedding call) and of \<open>query_text\<close>.
\<close>

definition embedding_of ::
  "'item library \<Rightarrow> 'item simple_rag_chat \<Rightarrow> (string \<times> pyval) list \<Rightarrow> string \<Rightarrow> error + pyfloat list"
where
  "embedding_of lib self overrides q =
     (if vector_search_of overrides then
        compute_text_embedding lib q (embed_model self) (embed_deployment self)
          (embed_dimensions self)
      else Inr [])"

definition query_text_of :: "(string \<times> pyval) list \<Rightarrow> string \<Rightarrow> pyval" where
  "query_text_of overrides q = (if text_search_of overrides then PStr q else PNone)"


section \<open>Sample inputs\<close>

text \<open>
  Concrete inputs at which the theorems below are instantiated. \<open>sample_loads\<close> decodes
  the three JSON texts used here and rejects every other text.
\<close>

definition sample_loads :: "string \<Rightarrow> error + pyval" where
  "sample_loads payload =
     (if payload = ''{\"search_query\": \"red shoes\"}'' then
        Inr (PDict [(''search_query'', PStr ''red shoes'')])
      else if payload = ''{\"search_query\": \"boots\"}'' then
        Inr (PDict [(''search_query'', PStr ''boots'')])
      else if payload = ''{\"search_query\": \"shoes\", \"price_filter\": {\"comparison_operator\": \">\", \"value\": 30}, \"brand_filter\": {\"comparison_operator\": \"==\", \"value\": \"AirStrider\"}}'' then
        Inr (PDict [(''search_query'', PStr ''shoes''),
               (''price_filter'', PDict [(''comparison_operator'', PStr ''>''), (''value'', PInt 30)]),
               (''brand_filter'',
                  PDict [(''comparison_operator'', PStr ''==''), (''value'', PStr ''AirStrider'')])])
      else if payload = ''{\"search_query\": \"shoes\", \"price_filter\": {\"value\": 30}}'' then
        Inr (PDict [(''search_query'', PStr ''shoes''), (''price_filter'', PDict [(''value'', PInt 30)])])
      else Inl JSONDecodeError)"

definition search_call :: "string \<Rightarrow> tool_call" where
  "search_call payload =
     \<lparr>tool_type = ''function'',
      tool_function = \<lparr>name = ''search_database'', arguments = payload\<rparr>\<rparr>"

definition other_call :: tool_call where
  "other_call =
     \<lparr>tool_type = ''function'', tool_function = \<lparr>name = ''get_weather'', arguments = ''{}''\<rparr>\<rparr>"

definition completion_of :: "string option \<Rightarrow> tool_call list option \<Rightarrow> chat_completion" where
  "completion_of text tools = \<lparr>choices = [\<lparr>message = \<lparr>content = text, tool_calls = tools\<rparr>\<rparr>]\<rparr>"

text \<open>
  A retriever that returns two items (an item is its id text and its renderable text),
  an embedding of two floats, a \<open>build_messages\<close> that keeps everything, and a chat
  client that answers with one choice.
\<close>

definition sample_library :: "(string \<times> string) library" where
  "sample_library =
     \<lparr>compute_text_embedding = (\<lambda>q m d k. Inr [(1, 0), (3, - 2)]),
      build_messages =
        (\<lambda>a. Inr (\<lparr>role = ''system'',
                      msg_content = (case system_prompt a of PStr s \<Rightarrow> s | _ \<Rightarrow> [])\<rparr>
                    # past_messages a
                    @ [\<lparr>role = ''user'', msg_content = new_user_message a\<rparr>])),
      format_id = fst,
      to_str_for_rag = snd,
      to_dict = (\<lambda>item. PDict [(''id'', PStr (fst item)), (''name'', PStr (snd item))]),
      str_message = msg_content\<rparr>"

definition sample_chat :: "(string \<times> string) simple_rag_chat" where
  "sample_chat =
     \<lparr>searcher_search = (\<lambda>q v k. Inr [(''1'', ''Name:Trail Runner''), (''2'', ''Name:Summit Boot'')]),
      openai_chat_client_create =
        (\<lambda>a. Inr \<lparr>choices = [\<lparr>message = \<lparr>content = Some ''Try the Trail Runner [1].'',
                                              tool_calls = None\<rparr>\<rparr>]\<rparr>),
      chat_model = ''gpt-4o-mini'',
      chat_deployment = None,
      embed_deployment = None,
      embed_model = ''text-embedding-3-small'',
      embed_dimensions = 256,
      chat_token_limit = 4096,
      answer_prompt_template = ''Answer from the sources.''\<rparr>"

definition sample_messages :: "chat_message list" where
  "sample_messages = [\<lparr>role = ''user'', msg_content = ''red shoes''\<rparr>]"

section \<open>The extractor: lemmas\<close>

lemma tool_step_other: "\<not> is_search_call t \<Longrightarrow> tool_step loads t st = Inr st"
  by (simp add: tool_step_def is_search_call_def)

lemma scan_tools_others:
  "\<forall>t\<in>set ts. \<not> is_search_call t \<Longrightarrow> scan_tools loads ts st = Inr st"
  by (induction ts arbitrary: st) (simp_all add: tool_step_other)

lemma scan_tools_append:
  "scan_tools loads (xs @ ys) st =
     (case scan_tools loads xs st of Inl e \<Rightarrow> Inl e | Inr st' \<Rightarrow> scan_tools loads ys st')"
  by (induction xs arbitrary: st) (simp_all split: sum.splits)

lemma scan_tools_single:
  assumes "\<forall>u\<in>set (pre @ post). \<not> is_search_call u"
  shows "scan_tools loads (pre @ t # post) st =
     (case tool_step loads t st of Inl e \<Rightarrow> Inl e | Inr st' \<Rightarrow> Inr st')"
  using assms by (simp add: scan_tools_append scan_tools_others split: sum.splits)

lemma extract_tool_calls:
  assumes "choices cc = c # cs" and "tool_calls (message c) = Some tcs" and "tcs \<noteq> []"
  shows "extract_search_arguments loads cc = scan_tools loads tcs (PNone, [])"
  using assms by (cases tcs) (simp_all add: extract_search_arguments_def)

lemma scan_tools_error:
  assumes "t \<in> set ts" and "\<And>st. \<exists>e. tool_step loads t st = Inl e"
  shows "\<exists>e. scan_tools loads ts st = Inl e"
  using assms(1)
proof (induction ts arbitrary: st)
  case Nil
  then show ?case by simp
next
  case (Cons u us)
  show ?case
  proof (cases "tool_step loads u st")
    case (Inl e)
    then show ?thesis by simp
  next
    case (Inr st')
    with assms(2) have "u \<noteq> t" by (metis sum.distinct(1))
    with Cons.prems have "t \<in> set us" by simp
    with Cons.IH Inr show ?thesis by simp
  qed
qed


lemma make_filter_incomplete:
  "map_of f ''comparison_operator'' = None \<or> map_of f ''value'' = None \<Longrightarrow>
   \<exists>e. make_filter col (PDict f) = Inl e"
  by (auto simp: make_filter_def subscript_def split: option.splits)

lemma append_filter_incomplete:
  assumes "filter_incomplete arg key"
  shows "\<exists>e. append_filter arg key col filters = Inl e"
proof -
  from assms obtain f where f: "map_of arg key = Some (PDict f)"
    and "map_of f ''comparison_operator'' = None \<or> map_of f ''value'' = None"
    by (auto simp: filter_incomplete_def split: option.splits pyval.splits)
  then obtain e where "make_filter col (PDict f) = Inl e"
    using make_filter_incomplete by blast
  with f show ?thesis by (simp add: append_filter_def)
qed

lemma tool_step_malformed:
  assumes "is_search_call t" and "malformed_payload loads (arguments (tool_function t))"
  shows "\<exists>e. tool_step loads t st = Inl e"
proof (cases "loads (arguments (tool_function t))")
  case (Inl e)
  with assms(1) show ?thesis by (simp add: tool_step_def is_search_call_def)
next
  case (Inr v)
  with assms(2) obtain arg where arg: "v = PDict arg"
    and bad: "filter_incomplete arg ''price_filter'' \<or> filter_incomplete arg ''brand_filter''"
    by (auto simp: malformed_payload_def split: pyval.splits)
  from bad show ?thesis
  proof
    assume "filter_incomplete arg ''price_filter''"
    then obtain e where "append_filter arg ''price_filter'' ''price'' (snd st) = Inl e"
      using append_filter_incomplete by blast
    with assms(1) Inr arg show ?thesis by (simp add: tool_step_def is_search_call_def)
  next
    assume brand: "filter_incomplete arg ''brand_filter''"
    show ?thesis
    proof (cases "append_filter arg ''price_filter'' ''price'' (snd st)")
      case (Inl e)
      with assms(1) Inr arg show ?thesis by (simp add: tool_step_def is_search_call_def)
    next
      case price: (Inr filters1)
      from brand obtain e where "append_filter arg ''brand_filter'' ''brand'' filters1 = Inl e"
        using append_filter_incomplete by blast
      with assms(1) Inr arg price show ?thesis by (simp add: tool_step_def is_search_call_def)
    qed
  qed
qed

lemma strip_decomp:
  "\<exists>pre post. s = pre @ strip s @ post \<and> (\<forall>c\<in>set pre. isspace c) \<and> (\<forall>c\<in>set post. isspace c)"
proof -
  let ?d = "dropWhile isspace s"
  have "rev (takeWhile isspace (rev ?d) @ dropWhile isspace (rev ?d)) = ?d"
    by (simp only: takeWhile_dropWhile_id rev_rev_ident)
  then have d: "?d = strip s @ rev (takeWhile isspace (rev ?d))"
    unfolding rev_append strip_def by (rule sym)
  have "s = takeWhile isspace s @ ?d" by simp
  with d have "s = takeWhile isspace s @ strip s @ rev (takeWhile isspace (rev ?d))" by simp
  moreover have "\<forall>c\<in>set (takeWhile isspace s). isspace c"
    by (auto dest: set_takeWhileD)
  moreover have "\<forall>c\<in>set (rev (takeWhile isspace (rev ?d))). isspace c"
    by (auto dest: set_takeWhileD)
  ultimately show ?thesis by blast
qed

lemma strip_ends:
  assumes "strip s \<noteq> []"
  shows "\<not> isspace (hd (strip s)) \<and> \<not> isspace (last (strip s))"
proof -
  let ?d = "dropWhile isspace s"
  let ?r = "dropWhile isspace (rev ?d)"
  from assms have r: "?r \<noteq> []" by (simp add: strip_def)
  then have "\<not> isspace (hd ?r)" by (rule hd_dropWhile)
  with r have l: "\<not> isspace (last (strip s))" by (simp add: strip_def last_rev)
  from r have "rev ?d \<noteq> []" by (metis dropWhile.simps(1))
  then have d: "?d \<noteq> []" by (simp only: rev_is_Nil_conv not_False_eq_True)
  then have hd: "\<not> isspace (hd ?d)" by (rule hd_dropWhile)
  obtain post where "?d = strip s @ post"
    using takeWhile_dropWhile_id[of isspace "rev ?d"]
    by (metis rev_append rev_rev_ident strip_def)
  with assms have "hd ?d = hd (strip s)" by (metis hd_append2)
  with hd l show ?thesis by simp
qed



section \<open>The extractor: claims\<close>







text \<open>
  C7. A response without tool invocations (\<open>tool_calls\<close> absent or empty): with non-empty
  text content the extraction returns that content stripped of leading and trailing
  whitespace and no filter; with no content (absent, or the empty string) it returns a
  null query and no filter. The stripped text is what remains of the content between a
  prefix and a suffix of whitespace, and neither starts nor ends with whitespace.
\<close>

theorem plain_text_fallback:
  assumes "choices cc = c # cs"
    and "tool_calls (message c) = None \<or> tool_calls (message c) = Some []"
  shows "case content (message c) of
           None \<Rightarrow> extract_search_arguments loads cc = Inr (PNone, [])
         | Some s \<Rightarrow>
             if s = [] then extract_search_arguments loads cc = Inr (PNone, [])
             else extract_search_arguments loads cc = Inr (PStr (strip s), []) \<and>
                  (\<exists>pre post. s = pre @ strip s @ post \<and>
                     (\<forall>ch\<in>set pre. isspace ch) \<and> (\<forall>ch\<in>set post. isspace ch)) \<and>
                  (strip s = [] \<or> \<not> isspace (hd (strip s)) \<and> \<not> isspace (last (strip s)))"
proof (cases "content (message c)")
  case None
  with assms show ?thesis
    by (auto simp: extract_search_arguments_def)
next
  case (Some s)
  show ?thesis
  proof (cases s)
    case Nil
    with Some assms show ?thesis
      by (auto simp: extract_search_arguments_def)
  next
    case (Cons ch rest)
    with Some assms have "extract_search_arguments loads cc = Inr (PStr (strip s), [])"
      by (auto simp: extract_search_arguments_def)
    moreover have "strip s = [] \<or> \<not> isspace (hd (strip s)) \<and> \<not> isspace (last (strip s))"
      using strip_ends by blast
    ultimately show ?thesis
      using Some Cons strip_decomp[of s] by simp
  qed
qed

theorem plain_text_fallback_witness:
  "extract_search_arguments sample_loads
     (completion_of (Some ([CHR 0x0A] @ ''  red shoes '' @ [CHR 0x09])) None)
     = Inr (PStr ''red shoes'', [])
   \<and> extract_search_arguments sample_loads (completion_of (Some ''waterproof boots'') (Some []))
     = Inr (PStr ''waterproof boots'', [])
   \<and> extract_search_arguments sample_loads (completion_of None None) = Inr (PNone, [])"
proof -
  let ?s = "[CHR 0x0A] @ ''  red shoes '' @ [CHR 0x09]"
  have a: "choices (completion_of (Some ?s) None)
             = \<lparr>message = \<lparr>content = Some ?s, tool_calls = None\<rparr>\<rparr> # []"
    by (simp add: completion_of_def)
  have b: "choices (completion_of (Some ''waterproof boots'') (Some []))
             = \<lparr>message = \<lparr>content = Some ''waterproof boots'', tool_calls = Some []\<rparr>\<rparr> # []"
    by (simp add: completion_of_def)
  have c: "choices (completion_of None None)
             = \<lparr>message = \<lparr>content = None, tool_calls = None\<rparr>\<rparr> # []"
    by (simp add: completion_of_def)
  show ?thesis
    using plain_text_fallback[OF a, of sample_loads] plain_text_fallback[OF b, of sample_loads]
      plain_text_fallback[OF c, of sample_loads]
    by (simp add: strip_def isspace_def)
qed

text \<open>
  C9. A response with a \<open>function\<close>-kind \<open>search_database\<close> invocation whose payload is
  malformed (it does not parse, or a present \<open>price_filter\<close> or \<open>brand_filter\<close> object
  lacks \<open>comparison_operator\<close> or \<open>value\<close>): the extraction raises, whatever the other
  tool calls and the content are.
\<close>

theorem malformed_payload_raises:
  assumes "choices cc = c # cs"
    and "tool_calls (message c) = Some tcs"
    and "t \<in> set tcs"
    and "is_search_call t"
    and "malformed_payload loads (arguments (tool_function t))"
  shows "\<exists>e. extract_search_arguments loads cc = Inl e"
proof -
  from assms(3) have "tcs \<noteq> []" by auto
  with assms(1,2) have "extract_search_arguments loads cc = scan_tools loads tcs (PNone, [])"
    by (rule extract_tool_calls)
  moreover have "\<exists>e. scan_tools loads tcs (PNone, []) = Inl e"
    using assms(3) tool_step_malformed[OF assms(4,5)] by (rule scan_tools_error)
  ultimately show ?thesis by simp
qed

theorem malformed_payload_raises_witness:
  "(\<exists>e. extract_search_arguments sample_loads
        (completion_of (Some ''shoes'') (Some [other_call, search_call ''{not json''])) = Inl e)
   \<and> (\<exists>e. extract_search_arguments sample_loads
        (completion_of None
           (Some [search_call ''{\"search_query\": \"shoes\", \"price_filter\": {\"value\": 30}}''])) = Inl e)"
proof -
  have a: "malformed_payload sample_loads (arguments (tool_function (search_call ''{not json'')))"
    by (simp add: malformed_payload_def sample_loads_def search_call_def)
  have b: "malformed_payload sample_loads (arguments (tool_function
      (search_call ''{\"search_query\": \"shoes\", \"price_filter\": {\"value\": 30}}'')))"
    by (simp add: malformed_payload_def sample_loads_def search_call_def filter_incomplete_def)
  have s: "\<And>p. is_search_call (search_call p)"
    by (simp add: is_search_call_def search_call_def)
  show ?thesis
    using malformed_payload_raises[OF _ _ _ s a, of
        "completion_of (Some ''shoes'') (Some [other_call, search_call ''{not json''])" _ "[]"
        "[other_call, search_call ''{not json'']"]
      malformed_payload_raises[OF _ _ _ s b, of
        "completion_of None
           (Some [search_call ''{\"search_query\": \"shoes\", \"price_filter\": {\"value\": 30}}''])" _ "[]"
        "[search_call ''{\"search_query\": \"shoes\", \"price_filter\": {\"value\": 30}}'']"]
    by (simp add: completion_of_def)
qed

text \<open>
  C10. A response whose \<open>tool_calls\<close> list is non-empty and holds no \<open>function\<close>-kind
  \<open>search_database\<close> invocation: the extraction returns a null query and no filter,
  whatever the content is. With a non-empty \<open>tool_calls\<close> list the content is never read:
  replacing it leaves the result unchanged.
\<close>

theorem ignored_tool_calls_no_fallback:
  assumes "choices cc = c # cs"
    and "tool_calls (message c) = Some tcs"
    and "tcs \<noteq> []"
  shows "((\<forall>t\<in>set tcs. \<not> is_search_call t) \<longrightarrow>
            extract_search_arguments loads cc = Inr (PNone, []))
       \<and> extract_search_arguments loads
            (cc\<lparr>choices := c\<lparr>message := (message c)\<lparr>content := other\<rparr>\<rparr> # cs\<rparr>)
          = extract_search_arguments loads cc"
proof -
  have "extract_search_arguments loads cc = scan_tools loads tcs (PNone, [])"
    using assms by (rule extract_tool_calls)
  moreover have "extract_search_arguments loads
            (cc\<lparr>choices := c\<lparr>message := (message c)\<lparr>content := other\<rparr>\<rparr> # cs\<rparr>)
          = scan_tools loads tcs (PNone, [])"
  proof (rule extract_tool_calls)
    show "choices (cc\<lparr>choices := c\<lparr>message := (message c)\<lparr>content := other\<rparr>\<rparr> # cs\<rparr>)
            = c\<lparr>message := (message c)\<lparr>content := other\<rparr>\<rparr> # cs"
      by simp
    show "tool_calls (message (c\<lparr>message := (message c)\<lparr>content := other\<rparr>\<rparr>)) = Some tcs"
      using assms(2) by simp
    show "tcs \<noteq> []" by (rule assms(3))
  qed
  ultimately show ?thesis
    by (simp add: scan_tools_others)
qed

theorem ignored_tool_calls_no_fallback_witness:
  "extract_search_arguments sample_loads (completion_of (Some ''red shoes'') (Some [other_call]))
     = Inr (PNone, [])
   \<and> extract_search_arguments sample_loads (completion_of None (Some [other_call]))
     = extract_search_arguments sample_loads
         (completion_of (Some ''red shoes'') (Some [other_call]))"
proof -
  let ?c = "\<lparr>message = \<lparr>content = Some ''red shoes'', tool_calls = Some [other_call]\<rparr>\<rparr>"
  have 1: "choices (completion_of (Some ''red shoes'') (Some [other_call])) = ?c # []"
    by (simp add: completion_of_def)
  have 2: "tool_calls (message ?c) = Some [other_call]"
    by simp
  have 3: "[other_call] \<noteq> []"
    by simp
  have 4: "\<forall>t\<in>set [other_call]. \<not> is_search_call t"
    by (simp add: is_search_call_def other_call_def)
  show ?thesis
    using ignored_tool_calls_no_fallback[OF 1 2 3, of sample_loads None] 4
    by (simp add: completion_of_def)
qed

section \<open>The synthesizer: lemmas\<close>

lemma fst_and_then:
  "fst (and_then m k) = fst m @ (case snd m of Inl e \<Rightarrow> [] | Inr x \<Rightarrow> fst (k x))"
  by (cases m) (simp add: and_then_def split: sum.splits prod.splits)

lemma snd_and_then:
  "snd (and_then m k) = (case snd m of Inl e \<Rightarrow> Inl e | Inr x \<Rightarrow> snd (k x))"
  by (cases m) (simp add: and_then_def split: sum.splits prod.splits)

lemma fst_call [simp]: "fst (call ev r) = [ev]" and snd_call [simp]: "snd (call ev r) = r"
  by (simp_all add: call_def)

lemma fst_returned [simp]: "fst (returned x) = []" and snd_returned [simp]: "snd (returned x) = Inr x"
  by (simp_all add: returned_def)

lemma fst_unrecorded [simp]: "fst (unrecorded r) = []" and snd_unrecorded [simp]: "snd (unrecorded r) = r"
  by (simp_all add: unrecorded_def)

lemma fst_raise [simp]: "fst (raise e) = []" and snd_raise [simp]: "snd (raise e) = Inl e"
  by (simp_all add: raise_def)

lemma run_empty: "run lib self [] overrides = ([], Inl IndexError)"
  by (simp add: run_def Let_def raise_def)

lemma run_trace:
  assumes "messages \<noteq> []"
  shows "fst (run lib self messages overrides) =
     (if vector_search_of overrides then [EmbedCall (msg_content (last messages))] else []) @
     (case embedding_of lib self overrides (msg_content (last messages)) of
        Inl e \<Rightarrow> []
      | Inr vector \<Rightarrow>
          SearchCall (query_text_of overrides (msg_content (last messages))) vector (top_of overrides) #
          (case searcher_search self (query_text_of overrides (msg_content (last messages))) vector
                  (top_of overrides) of
             Inl e \<Rightarrow> []
           | Inr results \<Rightarrow>
               BuildCall (build_request lib self overrides (msg_content (last messages))
                            (butlast messages) results) #
               (case build_messages lib
                       (build_request lib self overrides (msg_content (last messages))
                          (butlast messages) results) of
                  Inl e \<Rightarrow> []
                | Inr prompt_messages \<Rightarrow>
                    [CreateCall (create_request self overrides prompt_messages)])))"
proof (cases "vector_search_of overrides")
  case True
  with assms show ?thesis
    by (simp add: run_def Let_def fst_and_then embedding_of_def query_text_of_def
        cong: sum.case_cong)
next
  case False
  with assms show ?thesis
    by (simp add: run_def Let_def fst_and_then embedding_of_def query_text_of_def
        cong: sum.case_cong)
qed

lemma run_result:
  assumes "messages \<noteq> []"
  shows "snd (run lib self messages overrides) =
     (case embedding_of lib self overrides (msg_content (last messages)) of
        Inl e \<Rightarrow> Inl e
      | Inr vector \<Rightarrow>
          (case searcher_search self (query_text_of overrides (msg_content (last messages))) vector
                  (top_of overrides) of
             Inl e \<Rightarrow> Inl e
           | Inr results \<Rightarrow>
               (case build_messages lib
                       (build_request lib self overrides (msg_content (last messages))
                          (butlast messages) results) of
                  Inl e \<Rightarrow> Inl e
                | Inr prompt_messages \<Rightarrow>
                    (case openai_chat_client_create self
                            (create_request self overrides prompt_messages) of
                       Inl e \<Rightarrow> Inl e
                     | Inr response \<Rightarrow>
                         attach_context (model_dump response)
                           (context_of lib self overrides
                              (query_text_of overrides (msg_content (last messages)))
                              results prompt_messages)))))"
proof (cases "vector_search_of overrides")
  case True
  with assms show ?thesis
    by (simp add: run_def Let_def snd_and_then embedding_of_def query_text_of_def
        cong: sum.case_cong)
next
  case False
  with assms show ?thesis
    by (simp add: run_def Let_def snd_and_then embedding_of_def query_text_of_def
        cong: sum.case_cong)
qed

lemma embed_calls_run:
  assumes "messages \<noteq> []"
  shows "embed_calls (fst (run lib self messages overrides)) =
     (if vector_search_of overrides then [msg_content (last messages)] else [])"
  by (simp add: run_trace[OF assms] split: sum.splits)

lemma search_calls_run:
  assumes "messages \<noteq> []"
  shows "search_calls (fst (run lib self messages overrides)) =
     (case embedding_of lib self overrides (msg_content (last messages)) of
        Inl e \<Rightarrow> []
      | Inr vector \<Rightarrow>
          [(query_text_of overrides (msg_content (last messages)), vector, top_of overrides)])"
  by (simp add: run_trace[OF assms] split: sum.splits)

lemma build_calls_run:
  assumes "messages \<noteq> []"
  shows "build_calls (fst (run lib self messages overrides)) =
     (case embedding_of lib self overrides (msg_content (last messages)) of
        Inl e \<Rightarrow> []
      | Inr vector \<Rightarrow>
          (case searcher_search self (query_text_of overrides (msg_content (last messages))) vector
                  (top_of overrides) of
             Inl e \<Rightarrow> []
           | Inr results \<Rightarrow>
               [build_request lib self overrides (msg_content (last messages))
                  (butlast messages) results]))"
  by (simp add: run_trace[OF assms] split: sum.splits)

lemma mode_text:
  "dict_get overrides ''retrieval_mode'' = PStr ''text'' \<Longrightarrow>
   text_search_of overrides \<and> \<not> vector_search_of overrides"
  by (simp add: text_search_of_def vector_search_of_def)

lemma mode_vectors:
  "dict_get overrides ''retrieval_mode'' = PStr ''vectors'' \<Longrightarrow>
   \<not> text_search_of overrides \<and> vector_search_of overrides"
  by (simp add: text_search_of_def vector_search_of_def)

lemma mode_hybrid:
  "dict_get overrides ''retrieval_mode'' = PStr ''hybrid'' \<or>
   dict_get overrides ''retrieval_mode'' = PNone \<Longrightarrow>
   text_search_of overrides \<and> vector_search_of overrides"
  by (auto simp: text_search_of_def vector_search_of_def)

lemma mode_other:
  "dict_get overrides ''retrieval_mode'' \<notin> set [PStr ''text'', PStr ''vectors'', PStr ''hybrid'', PNone]
   \<Longrightarrow> \<not> text_search_of overrides \<and> \<not> vector_search_of overrides"
  by (simp add: text_search_of_def vector_search_of_def)


lemma run_completes:
  assumes "messages \<noteq> []"
    and "embedding_of lib self overrides (msg_content (last messages)) = Inr vector"
    and "searcher_search self (query_text_of overrides (msg_content (last messages))) vector
           (top_of overrides) = Inr results"
    and "build_messages lib
           (build_request lib self overrides (msg_content (last messages)) (butlast messages)
              results) = Inr prompt_messages"
    and "openai_chat_client_create self (create_request self overrides prompt_messages)
           = Inr response"
    and "choices response \<noteq> []"
  shows "\<exists>tr resp. run lib self messages overrides = (tr, Inr resp)"
proof -
  from assms(6) obtain resp where
    "attach_context (model_dump response)
       (context_of lib self overrides (query_text_of overrides (msg_content (last messages)))
          results prompt_messages) = Inr resp"
    by (cases "choices response") (simp_all add: attach_context_def model_dump_def)
  with assms(2-5) have "snd (run lib self messages overrides) = Inr resp"
    by (simp add: run_result[OF assms(1)])
  then show ?thesis by (metis prod.collapse)
qed


lemma run_returns_context:
  assumes "messages \<noteq> []"
    and "embedding_of lib self overrides (msg_content (last messages)) = Inr vector"
    and "searcher_search self (query_text_of overrides (msg_content (last messages))) vector
           (top_of overrides) = Inr results"
    and "snd (run lib self messages overrides) = Inr resp"
  shows "\<exists>prompt_messages first rest.
      resp_choices resp = first # rest \<and>
      choice_context first =
        Some (context_of lib self overrides
                (query_text_of overrides (msg_content (last messages))) results prompt_messages)"
proof -
  from assms(4) obtain prompt_messages response where
    "attach_context (model_dump response)
       (context_of lib self overrides
          (query_text_of overrides (msg_content (last messages))) results prompt_messages)
     = Inr resp"
    using assms(2,3) by (auto simp: run_result[OF assms(1)] split: sum.splits)
  then show ?thesis
    by (auto simp: attach_context_def split: list.splits)
qed

section \<open>The synthesizer: claims\<close>

text \<open>
  C1, as stated, fails: with \<open>retrieval_mode = "none"\<close> both \<open>text_search\<close> and
  \<open>vector_search\<close> are false, and the retriever is still called, with a null query text,
  an empty vector and the default top; its two items reach the prompt.
\<close>

theorem short_circuit_counterexample:
  "\<not> text_search_of [(''retrieval_mode'', PStr ''none'')]
   \<and> \<not> vector_search_of [(''retrieval_mode'', PStr ''none'')]
   \<and> search_calls (fst (run sample_library sample_chat sample_messages
                           [(''retrieval_mode'', PStr ''none'')]))
       = [(PNone, [], PInt 3)]
   \<and> map new_user_message
         (build_calls (fst (run sample_library sample_chat sample_messages
                              [(''retrieval_mode'', PStr ''none'')])))
       = [''red shoes'' @ [CHR 0x0A, CHR 0x0A] @ ''Sources:'' @ [CHR 0x0A]
            @ ''[1]:Name:Trail Runner'' @ [CHR 0x0A, CHR 0x0A, CHR 0x0A]
            @ ''[2]:Name:Summit Boot'' @ [CHR 0x0A, CHR 0x0A]]"
  by (simp add: search_calls_run build_calls_run embedding_of_def query_text_of_def
      text_search_of_def vector_search_of_def dict_get_def top_of_def dict_get_default_def
      build_request_def sources_text_def sources_content_def nl_def
      sample_library_def sample_chat_def sample_messages_def)

text \<open>
  C1, amended. A run on a non-empty message list whose \<open>retrieval_mode\<close> is none of
  \<open>"text"\<close>, \<open>"vectors"\<close>, \<open>"hybrid"\<close> or absent computes no embedding and invokes the
  retriever exactly once, with a null query text, an empty vector and \<open>top\<close>: there is
  no short circuit. The retrieval result is whatever the retriever returns for those
  arguments: if it raises, the run ends with that exception right after the call; if it
  returns items, the sources block of exactly these items is in the new user message
  handed to \<open>build_messages\<close>, and every response the run returns carries their rendered
  blocks as \<open>data_points.text\<close> and their dicts as the second thought step.
\<close>

theorem unknown_mode_still_searches:
  assumes "messages \<noteq> []"
    and "dict_get overrides ''retrieval_mode'' \<notin>
           set [PStr ''text'', PStr ''vectors'', PStr ''hybrid'', PNone]"
  shows "embed_calls (fst (run lib self messages overrides)) = [] \<and>
         search_calls (fst (run lib self messages overrides)) = [(PNone, [], top_of overrides)] \<and>
         (case searcher_search self PNone [] (top_of overrides) of
            Inl e \<Rightarrow>
              run lib self messages overrides = ([SearchCall PNone [] (top_of overrides)], Inl e)
          | Inr results \<Rightarrow>
              map new_user_message (build_calls (fst (run lib self messages overrides))) =
                [msg_content (last messages) @ [CHR 0x0A, CHR 0x0A] @ ''Sources:'' @ [CHR 0x0A]
                   @ sources_text lib results] \<and>
              (\<forall>resp. snd (run lib self messages overrides) = Inr resp \<longrightarrow>
                 (\<exists>first rest ctx.
                    resp_choices resp = first # rest \<and>
                    choice_context first = Some ctx \<and>
                    data_points_text ctx = sources_content lib results \<and>
                    length (thoughts ctx) = 3 \<and>
                    description (thoughts ctx ! 1) = PList (map (to_dict lib) results))))"
proof -
  from mode_other[OF assms(2)]
  have emb: "embedding_of lib self overrides (msg_content (last messages)) = Inr []"
    and qt: "query_text_of overrides (msg_content (last messages)) = PNone"
    by (simp_all add: embedding_of_def query_text_of_def)
  have 1: "embed_calls (fst (run lib self messages overrides)) = []"
    using mode_other[OF assms(2)] by (simp add: embed_calls_run[OF assms(1)])
  have 2: "search_calls (fst (run lib self messages overrides)) = [(PNone, [], top_of overrides)]"
    by (simp add: search_calls_run[OF assms(1)] emb qt)
  have 3: "case searcher_search self PNone [] (top_of overrides) of
            Inl e \<Rightarrow>
              run lib self messages overrides = ([SearchCall PNone [] (top_of overrides)], Inl e)
          | Inr results \<Rightarrow>
              map new_user_message (build_calls (fst (run lib self messages overrides))) =
                [msg_content (last messages) @ [CHR 0x0A, CHR 0x0A] @ ''Sources:'' @ [CHR 0x0A]
                   @ sources_text lib results] \<and>
              (\<forall>resp. snd (run lib self messages overrides) = Inr resp \<longrightarrow>
                 (\<exists>first rest ctx.
                    resp_choices resp = first # rest \<and>
                    choice_context first = Some ctx \<and>
                    data_points_text ctx = sources_content lib results \<and>
                    length (thoughts ctx) = 3 \<and>
                    description (thoughts ctx ! 1) = PList (map (to_dict lib) results)))"
  proof (cases "searcher_search self PNone [] (top_of overrides)")
    case (Inl e)
    have "fst (run lib self messages overrides) = [SearchCall PNone [] (top_of overrides)]"
      using mode_other[OF assms(2)] by (simp add: run_trace[OF assms(1)] emb qt Inl)
    moreover have "snd (run lib self messages overrides) = Inl e"
      by (simp add: run_result[OF assms(1)] emb qt Inl)
    ultimately have "run lib self messages overrides
        = ([SearchCall PNone [] (top_of overrides)], Inl e)"
      by (simp add: prod_eq_iff)
    with Inl show ?thesis by simp
  next
    case (Inr results)
    have b: "map new_user_message (build_calls (fst (run lib self messages overrides))) =
                [msg_content (last messages) @ [CHR 0x0A, CHR 0x0A] @ ''Sources:'' @ [CHR 0x0A]
                   @ sources_text lib results]"
      by (simp add: build_calls_run[OF assms(1)] emb qt Inr build_request_def nl_def)
    have c: "\<exists>first rest ctx.
                    resp_choices resp = first # rest \<and>
                    choice_context first = Some ctx \<and>
                    data_points_text ctx = sources_content lib results \<and>
                    length (thoughts ctx) = 3 \<and>
                    description (thoughts ctx ! 1) = PList (map (to_dict lib) results)"
      if "snd (run lib self messages overrides) = Inr resp" for resp
    proof -
      from Inr have s: "searcher_search self
          (query_text_of overrides (msg_content (last messages))) [] (top_of overrides)
          = Inr results"
        by (simp add: qt)
      from run_returns_context[OF assms(1) emb s that]
      obtain prompt_messages first rest where
        "resp_choices resp = first # rest"
        and "choice_context first =
          Some (context_of lib self overrides
                  (query_text_of overrides (msg_content (last messages))) results
                  prompt_messages)"
        by blast
      then show ?thesis
        by (simp add: context_of_def)
    qed
    from Inr b c show ?thesis by simp
  qed
  from 1 2 3 show ?thesis by simp
qed

theorem unknown_mode_still_searches_witness:
  "embed_calls (fst (run sample_library sample_chat sample_messages
                       [(''retrieval_mode'', PStr ''keyword''), (''top'', PInt 5)])) = []
   \<and> search_calls (fst (run sample_library sample_chat sample_messages
                       [(''retrieval_mode'', PStr ''keyword''), (''top'', PInt 5)]))
       = [(PNone, [], PInt 5)]
   \<and> map new_user_message
         (build_calls (fst (run sample_library sample_chat sample_messages
                              [(''retrieval_mode'', PStr ''keyword''), (''top'', PInt 5)])))
       = [''red shoes'' @ [CHR 0x0A, CHR 0x0A] @ ''Sources:'' @ [CHR 0x0A]
            @ ''[1]:Name:Trail Runner'' @ [CHR 0x0A, CHR 0x0A, CHR 0x0A]
            @ ''[2]:Name:Summit Boot'' @ [CHR 0x0A, CHR 0x0A]]
   \<and> (\<exists>resp first rest ctx.
         snd (run sample_library sample_chat sample_messages
                [(''retrieval_mode'', PStr ''keyword''), (''top'', PInt 5)]) = Inr resp \<and>
         resp_choices resp = first # rest \<and>
         choice_context first = Some ctx \<and>
         data_points_text ctx
           = [''[1]:Name:Trail Runner'' @ [CHR 0x0A, CHR 0x0A],
              ''[2]:Name:Summit Boot'' @ [CHR 0x0A, CHR 0x0A]])"
proof -
  let ?ov = "[(''retrieval_mode'', PStr ''keyword''), (''top'', PInt 5)]"
  have 1: "sample_messages \<noteq> []"
    by (simp add: sample_messages_def)
  have 2: "dict_get ?ov ''retrieval_mode''
             \<notin> set [PStr ''text'', PStr ''vectors'', PStr ''hybrid'', PNone]"
    by (simp add: dict_get_def)
  have 3: "searcher_search sample_chat PNone [] (top_of ?ov)
             = Inr [(''1'', ''Name:Trail Runner''), (''2'', ''Name:Summit Boot'')]"
    by (simp add: sample_chat_def)
  have 4: "\<exists>resp. snd (run sample_library sample_chat sample_messages ?ov) = Inr resp"
    by (simp add: run_result[OF 1] embedding_of_def vector_search_of_def dict_get_def
        attach_context_def model_dump_def sample_library_def sample_chat_def)
  note main = unknown_mode_still_searches[OF 1 2, of sample_library sample_chat,
      unfolded 3 sum.case]
  from main have a: "embed_calls (fst (run sample_library sample_chat sample_messages ?ov)) = []"
    by blast
  from main have b: "search_calls (fst (run sample_library sample_chat sample_messages ?ov))
       = [(PNone, [], PInt 5)]"
    by (simp add: top_of_def dict_get_default_def)
  from main have c: "map new_user_message
         (build_calls (fst (run sample_library sample_chat sample_messages ?ov)))
       = [''red shoes'' @ [CHR 0x0A, CHR 0x0A] @ ''Sources:'' @ [CHR 0x0A]
            @ ''[1]:Name:Trail Runner'' @ [CHR 0x0A, CHR 0x0A, CHR 0x0A]
            @ ''[2]:Name:Summit Boot'' @ [CHR 0x0A, CHR 0x0A]]"
    by (simp add: sources_text_def sources_content_def nl_def sample_library_def
        sample_messages_def)
  from 4 obtain resp where r: "snd (run sample_library sample_chat sample_messages ?ov) = Inr resp"
    by blast
  with main obtain first rest ctx where
    "resp_choices resp = first # rest" "choice_context first = Some ctx"
    "data_points_text ctx
       = sources_content sample_library [(''1'', ''Name:Trail Runner''), (''2'', ''Name:Summit Boot'')]"
    by blast
  then have d: "\<exists>resp first rest ctx.
         snd (run sample_library sample_chat sample_messages ?ov) = Inr resp \<and>
         resp_choices resp = first # rest \<and>
         choice_context first = Some ctx \<and>
         data_points_text ctx
           = [''[1]:Name:Trail Runner'' @ [CHR 0x0A, CHR 0x0A],
              ''[2]:Name:Summit Boot'' @ [CHR 0x0A, CHR 0x0A]]"
    using r by (auto simp: sources_content_def nl_def sample_library_def)
  from a b c d show ?thesis by (intro conjI)
qed

text \<open>
  C2, as stated, fails: a \<open>top\<close> of zero, or a negative one, in \<open>overrides\<close> is what the
  retriever receives.
\<close>

theorem top_positive_counterexample:
  "search_calls (fst (run sample_library sample_chat sample_messages [(''top'', PInt 0)]))
     = [(PStr ''red shoes'', [(1, 0), (3, - 2)], PInt 0)]
   \<and> search_calls (fst (run sample_library sample_chat sample_messages
                          [(''retrieval_mode'', PStr ''text''), (''top'', PInt (- 2))]))
     = [(PStr ''red shoes'', [], PInt (- 2))]"
  by (simp add: search_calls_run embedding_of_def query_text_of_def
      text_search_of_def vector_search_of_def dict_get_def top_of_def dict_get_default_def
      sample_library_def sample_chat_def sample_messages_def)

text \<open>
  C2, amended. The \<open>top\<close> of every retriever call of a run is the \<open>"top"\<close> entry of
  \<open>overrides\<close> as it stands, and 3 when the entry is absent.
\<close>

theorem top_passed_through:
  "\<forall>c\<in>set (search_calls (fst (run lib self messages overrides))).
     snd (snd c) = (case map_of overrides ''top'' of None \<Rightarrow> PInt 3 | Some v \<Rightarrow> v)"
proof (cases "messages = []")
  case True
  then show ?thesis by (simp add: run_empty)
next
  case False
  then show ?thesis
    by (simp add: search_calls_run top_of_def dict_get_default_def split: sum.splits)
qed

theorem top_passed_through_witness:
  "search_calls (fst (run sample_library sample_chat sample_messages []))
     = [(PStr ''red shoes'', [(1, 0), (3, - 2)], PInt 3)]
   \<and> snd (snd (hd (search_calls (fst (run sample_library sample_chat sample_messages
                                        [(''top'', PInt 5)]))))) = PInt 5"
  using top_passed_through[of sample_library sample_chat sample_messages "[]"]
    top_passed_through[of sample_library sample_chat sample_messages "[(''top'', PInt 5)]"]
  by (simp add: search_calls_run embedding_of_def query_text_of_def
      text_search_of_def vector_search_of_def dict_get_def top_of_def dict_get_default_def
      sample_library_def sample_chat_def sample_messages_def)




text \<open>
  C4. With \<open>retrieval_mode = "text"\<close> no embedding is computed, and the retriever gets
  the user query as text and an empty vector. With \<open>"vectors"\<close> the embedding of the last
  message's content is computed exactly once, as the first call of the run; if it
  succeeds the retriever is called next, with its vector and a null query text, and if
  it raises the run ends there. With \<open>"hybrid"\<close> or no mode the same holds with the user
  query as the query text. The last message exists when \<open>messages\<close> is not empty.
\<close>

theorem retrieval_mode_calls:
  "(dict_get overrides ''retrieval_mode'' = PStr ''text'' \<longrightarrow>
      embed_calls (fst (run lib self messages overrides)) = [] \<and>
      (messages \<noteq> [] \<longrightarrow>
         search_calls (fst (run lib self messages overrides)) =
           [(PStr (msg_content (last messages)), [], top_of overrides)]))
   \<and> (dict_get overrides ''retrieval_mode'' = PStr ''vectors'' \<and> messages \<noteq> [] \<longrightarrow>
      embed_calls (fst (run lib self messages overrides)) = [msg_content (last messages)] \<and>
      (case compute_text_embedding lib (msg_content (last messages)) (embed_model self)
              (embed_deployment self) (embed_dimensions self) of
         Inl e \<Rightarrow>
           fst (run lib self messages overrides) = [EmbedCall (msg_content (last messages))]
       | Inr vector \<Rightarrow>
           take 2 (fst (run lib self messages overrides)) =
             [EmbedCall (msg_content (last messages)), SearchCall PNone vector (top_of overrides)] \<and>
           search_calls (fst (run lib self messages overrides)) =
             [(PNone, vector, top_of overrides)]))
   \<and> ((dict_get overrides ''retrieval_mode'' = PStr ''hybrid'' \<or>
        dict_get overrides ''retrieval_mode'' = PNone) \<and> messages \<noteq> [] \<longrightarrow>
      embed_calls (fst (run lib self messages overrides)) = [msg_content (last messages)] \<and>
      (case compute_text_embedding lib (msg_content (last messages)) (embed_model self)
              (embed_deployment self) (embed_dimensions self) of
         Inl e \<Rightarrow>
           fst (run lib self messages overrides) = [EmbedCall (msg_content (last messages))]
       | Inr vector \<Rightarrow>
           take 2 (fst (run lib self messages overrides)) =
             [EmbedCall (msg_content (last messages)),
              SearchCall (PStr (msg_content (last messages))) vector (top_of overrides)] \<and>
           search_calls (fst (run lib self messages overrides)) =
             [(PStr (msg_content (last messages)), vector, top_of overrides)]))"
proof (intro conjI impI)
  assume m: "dict_get overrides ''retrieval_mode'' = PStr ''text''"
  show "embed_calls (fst (run lib self messages overrides)) = []"
    using mode_text[OF m] by (cases "messages = []") (simp_all add: run_empty embed_calls_run)
  assume ne: "messages \<noteq> []"
  show "search_calls (fst (run lib self messages overrides)) =
     [(PStr (msg_content (last messages)), [], top_of overrides)]"
    using mode_text[OF m]
    by (simp add: search_calls_run[OF ne] embedding_of_def query_text_of_def)
next
  assume a: "dict_get overrides ''retrieval_mode'' = PStr ''vectors'' \<and> messages \<noteq> []"
  then have vs: "\<not> text_search_of overrides \<and> vector_search_of overrides" and ne: "messages \<noteq> []"
    by (simp_all add: mode_vectors)
  from vs show "embed_calls (fst (run lib self messages overrides)) = [msg_content (last messages)]"
    by (simp add: embed_calls_run[OF ne])
  from vs show "case compute_text_embedding lib (msg_content (last messages)) (embed_model self)
              (embed_deployment self) (embed_dimensions self) of
         Inl e \<Rightarrow>
           fst (run lib self messages overrides) = [EmbedCall (msg_content (last messages))]
       | Inr vector \<Rightarrow>
           take 2 (fst (run lib self messages overrides)) =
             [EmbedCall (msg_content (last messages)), SearchCall PNone vector (top_of overrides)] \<and>
           search_calls (fst (run lib self messages overrides)) =
             [(PNone, vector, top_of overrides)]"
    by (simp add: run_trace[OF ne] search_calls_run[OF ne] embedding_of_def query_text_of_def
        split: sum.splits)
next
  assume a: "(dict_get overrides ''retrieval_mode'' = PStr ''hybrid'' \<or>
        dict_get overrides ''retrieval_mode'' = PNone) \<and> messages \<noteq> []"
  then have vs: "text_search_of overrides \<and> vector_search_of overrides" and ne: "messages \<noteq> []"
    by (simp_all add: mode_hybrid)
  from vs show "embed_calls (fst (run lib self messages overrides)) = [msg_content (last messages)]"
    by (simp add: embed_calls_run[OF ne])
  from vs show "case compute_text_embedding lib (msg_content (last messages)) (embed_model self)
              (embed_deployment self) (embed_dimensions self) of
         Inl e \<Rightarrow>
           fst (run lib self messages overrides) = [EmbedCall (msg_content (last messages))]
       | Inr vector \<Rightarrow>
           take 2 (fst (run lib self messages overrides)) =
             [EmbedCall (msg_content (last messages)),
              SearchCall (PStr (msg_content (last messages))) vector (top_of overrides)] \<and>
           search_calls (fst (run lib self messages overrides)) =
             [(PStr (msg_content (last messages)), vector, top_of overrides)]"
    by (simp add: run_trace[OF ne] search_calls_run[OF ne] embedding_of_def query_text_of_def
        split: sum.splits)
qed

theorem retrieval_mode_calls_witness:
  "embed_calls (fst (run sample_library sample_chat sample_messages
                       [(''retrieval_mode'', PStr ''text'')])) = []
   \<and> search_calls (fst (run sample_library sample_chat sample_messages
                       [(''retrieval_mode'', PStr ''text'')]))
       = [(PStr ''red shoes'', [], PInt 3)]
   \<and> take 2 (fst (run sample_library sample_chat sample_messages
                       [(''retrieval_mode'', PStr ''vectors'')]))
       = [EmbedCall ''red shoes'', SearchCall PNone [(1, 0), (3, - 2)] (PInt 3)]
   \<and> embed_calls (fst (run sample_library sample_chat sample_messages
                       [(''retrieval_mode'', PStr ''vectors'')])) = [''red shoes'']
   \<and> take 2 (fst (run sample_library sample_chat sample_messages
                       [(''retrieval_mode'', PStr ''hybrid'')]))
       = [EmbedCall ''red shoes'', SearchCall (PStr ''red shoes'') [(1, 0), (3, - 2)] (PInt 3)]
   \<and> take 2 (fst (run sample_library sample_chat sample_messages []))
       = [EmbedCall ''red shoes'', SearchCall (PStr ''red shoes'') [(1, 0), (3, - 2)] (PInt 3)]"
  using retrieval_mode_calls[of "[(''retrieval_mode'', PStr ''text'')]" sample_library
      sample_chat sample_messages]
    retrieval_mode_calls[of "[(''retrieval_mode'', PStr ''vectors'')]" sample_library
      sample_chat sample_messages]
    retrieval_mode_calls[of "[(''retrieval_mode'', PStr ''hybrid'')]" sample_library
      sample_chat sample_messages]
    retrieval_mode_calls[of "[]" sample_library sample_chat sample_messages]
  by (simp add: dict_get_def top_of_def dict_get_default_def
      sample_library_def sample_chat_def sample_messages_def)



end
